theory Spec2Isabelle
  imports Main "HOL-Library.Product_Lexorder"
begin

section \<open>The version check of fzf_but_typed (compatibility.py)\<close>

text \<open>
  The module parses the text printed by \<^verbatim>\<open>fzf --version\<close> into a \<^verbatim>\<open>SemVer\<close> and
  classifies it against a table of supported (fzf version, library version) pairs.
  Python names are kept; a leading underscore, which Isabelle does not admit, is dropped
  (\<^verbatim>\<open>_RE_SEMVER\<close> is \<open>RE_SEMVER\<close>, \<^verbatim>\<open>_raise_error\<close> is \<open>raise_error\<close>), and
  \<^verbatim>\<open>_test_compatibility\<close> is \<open>test_compatibility_inner\<close>, since \<^verbatim>\<open>test_compatibility\<close>
  exists as well.

  Python strings are modelled as \<open>string\<close>: a \<open>char\<close> stands for a code point below 256.
  In that range the characters of the class \<^verbatim>\<open>\d\<close> are exactly \<^verbatim>\<open>0\<close> to \<^verbatim>\<open>9\<close>. Python
  integers are unbounded and are modelled as \<open>int\<close>.
\<close>

subsection \<open>SemVer\<close>

text \<open>
  \<^verbatim>\<open>@dc.dataclass(frozen=True, slots=True, kw_only=True, order=True)\<close>: three \<^verbatim>\<open>int\<close>
  fields. \<^verbatim>\<open>order=True\<close> generates the comparison methods, which compare the tuples of
  the fields in declaration order; tuples compare lexicographically.
\<close>

record SemVer =
  major :: int
  minor :: int
  patch :: int

definition astuple :: "SemVer \<Rightarrow> int \<times> int \<times> int" where
  "astuple v = (major v, minor v, patch v)"

definition SemVer_lt :: "SemVer \<Rightarrow> SemVer \<Rightarrow> bool" where
  "SemVer_lt v w = (astuple v < astuple w)"

definition SemVer_gt :: "SemVer \<Rightarrow> SemVer \<Rightarrow> bool" where
  "SemVer_gt v w = (astuple v > astuple w)"

definition is_compatible_with :: "SemVer \<Rightarrow> SemVer \<Rightarrow> bool" where
  "is_compatible_with self other = (major self = major other \<and> minor self = minor other)"

subsection \<open>Exceptions\<close>

text \<open>
  The message of the \<^verbatim>\<open>RuntimeError\<close> of \<^verbatim>\<open>_raise_error\<close> is the concatenation of
  templates; each template is kept as a constructor with the values formatted into it,
  the prose itself is left out.
\<close>

datatype msg_part =
    ERROR_HEADER SemVer SemVer
  | ERROR_OLDER
  | ERROR_NEWER
  | ERROR_PREVIOUSLY_SUPPORTED SemVer
  | ERROR_EPILOGUE

text \<open>
  \<open>ValueError msg notes\<close> carries the notes attached by \<^verbatim>\<open>add_note\<close>.
  \<open>SubprocessError\<close> stands for whatever \<^verbatim>\<open>subprocess.run\<close> raises.
\<close>

datatype exn =
    ValueError string "string list"
  | RuntimeError "msg_part list"
  | SystemExit
  | IndexError
  | SubprocessError

subsection \<open>The regular expression\<close>

text \<open>
  \<^verbatim>\<open>_RE_SEMVER = re.compile(r'^(?P<major>\d+)\.(?P<minor>\d+).(?P<patch>\d+)\S*')\<close>

  Character sets: \<^verbatim>\<open>\d\<close>, \<^verbatim>\<open>\S\<close>, the dot (any character but a newline, as no
  \<^verbatim>\<open>DOTALL\<close> flag is given) and an escaped literal.
\<close>

datatype cset = Digit | NonSpace | AnyChar | Lit char

definition is_digit :: "char \<Rightarrow> bool" where
  "is_digit c = (c \<in> set ''0123456789'')"

definition is_space :: "char \<Rightarrow> bool" where
  "is_space c = ((of_char c :: nat) \<in> set [9, 10, 11, 12, 13, 28, 29, 30, 31, 32, 133, 160])"

fun in_cset :: "cset \<Rightarrow> char \<Rightarrow> bool" where
  "in_cset Digit c = is_digit c"
| "in_cset NonSpace c = (\<not> is_space c)"
| "in_cset AnyChar c = (c \<noteq> CHR 0x0A)"
| "in_cset (Lit d) c = (c = d)"

text \<open>
  The nodes of a pattern: \<^verbatim>\<open>^\<close> (start of the string, as no \<^verbatim>\<open>MULTILINE\<close> flag is
  given), one character of a set, the greedy repetitions \<^verbatim>\<open>+\<close> and \<^verbatim>\<open>*\<close> of a set, and
  a named group \<^verbatim>\<open>(?P<name>...)\<close>.
\<close>

datatype node = Bol | One cset | Many1 cset | Many0 cset | Named string node

definition RE_SEMVER :: "node list" where
  "RE_SEMVER =
     [Bol, Named ''major'' (Many1 Digit), One (Lit CHR ''.''),
      Named ''minor'' (Many1 Digit), One AnyChar,
      Named ''patch'' (Many1 Digit), Many0 NonSpace]"

text \<open>
  \<open>spans n pos s\<close>: the numbers of characters that node \<open>n\<close> can take at position \<open>pos\<close>,
  where \<open>s\<close> is the text from \<open>pos\<close> on, in the order in which the backtracking matcher
  tries them: a greedy repetition tries the longest run first and gives one character
  back at a time.
\<close>

fun spans :: "node \<Rightarrow> nat \<Rightarrow> string \<Rightarrow> nat list" where
  "spans Bol pos s = (if pos = 0 then [0] else [])"
| "spans (One c) pos s = (case s of [] \<Rightarrow> [] | x # _ \<Rightarrow> if in_cset c x then [1] else [])"
| "spans (Many1 c) pos s = rev [1 ..< Suc (length (takeWhile (in_cset c) s))]"
| "spans (Many0 c) pos s = rev [0 ..< Suc (length (takeWhile (in_cset c) s))]"
| "spans (Named nm n) pos s = spans n pos s"

fun bind_group :: "node \<Rightarrow> string \<Rightarrow> (string \<rightharpoonup> string) \<Rightarrow> (string \<rightharpoonup> string)" where
  "bind_group (Named nm n) txt g = g(nm \<mapsto> txt)"
| "bind_group n txt g = g"

fun first_some :: "'a option list \<Rightarrow> 'a option" where
  "first_some [] = None"
| "first_some (Some x # xs) = Some x"
| "first_some (None # xs) = first_some xs"

text \<open>
  \<open>re_match p pos s\<close>: match the nodes \<open>p\<close> in sequence from position \<open>pos\<close>; the result is
  the groups of the first alternative, in backtracking order, for which the whole
  sequence matches.
\<close>

fun re_match :: "node list \<Rightarrow> nat \<Rightarrow> string \<Rightarrow> (string \<rightharpoonup> string) option" where
  "re_match [] pos s = Some Map.empty"
| "re_match (n # p) pos s =
     first_some (map (\<lambda>k. map_option (bind_group n (take k s)) (re_match p (pos + k) (drop k s)))
                     (spans n pos s))"

text \<open>\<^verbatim>\<open>Pattern.search\<close>: the first start position, from 0 to the length of the text, with a match.\<close>

definition re_search :: "node list \<Rightarrow> string \<Rightarrow> (string \<rightharpoonup> string) option" where
  "re_search p s = first_some (map (\<lambda>i. re_match p i (drop i s)) [0 ..< Suc (length s)])"

subsection \<open>SemVer.from_str\<close>

text \<open>
  \<^verbatim>\<open>int(text)\<close> on the text of a group. The groups of \<^verbatim>\<open>_RE_SEMVER\<close> are non-empty runs of
  digits, on which \<^verbatim>\<open>int\<close> is the decimal value, leading zeros allowed; any other text
  is given as a \<^verbatim>\<open>ValueError\<close>, a branch that \<open>from_str\<close> never reaches (lemma
  \<open>from_str_cases\<close>). The integers are unbounded. CPython's guard on the length of a
  decimal text (\<^verbatim>\<open>sys.set_int_max_str_digits\<close>, 4300 digits unless configured otherwise)
  is a setting of the interpreter and is not modelled: the model is the module under an
  interpreter with the guard switched off, and agrees with the default interpreter on
  every component of at most 4300 digits.
\<close>

definition digit_val :: "char \<Rightarrow> int" where
  "digit_val c = int (of_char c) - 48"

definition py_int :: "string \<Rightarrow> exn + int" where
  "py_int s =
     (if s \<noteq> [] \<and> list_all is_digit s
      then Inr (foldl (\<lambda>acc c. 10 * acc + digit_val c) 0 s)
      else Inl (ValueError (''invalid literal for int() with base 10: '' @ s) []))"

text \<open>\<^verbatim>\<open>match[name]\<close>: the text of a group; \<^verbatim>\<open>IndexError\<close> when there is no such group.\<close>

definition group :: "(string \<rightharpoonup> string) \<Rightarrow> string \<Rightarrow> exn + string" where
  "group m nm = (case m nm of None \<Rightarrow> Inl IndexError | Some txt \<Rightarrow> Inr txt)"

definition and_then :: "exn + 'a \<Rightarrow> ('a \<Rightarrow> exn + 'b) \<Rightarrow> exn + 'b" where
  "and_then r f = (case r of Inl e \<Rightarrow> Inl e | Inr x \<Rightarrow> f x)"

definition from_str :: "string \<Rightarrow> exn + SemVer" where
  "from_str value =
     (case re_search RE_SEMVER value of
        None \<Rightarrow> Inl (ValueError (''can't parse given semver: '' @ value) [])
      | Some match \<Rightarrow>
          and_then (and_then (group match ''major'') py_int) (\<lambda>ma.
          and_then (and_then (group match ''minor'') py_int) (\<lambda>mi.
          and_then (and_then (group match ''patch'') py_int) (\<lambda>pa.
          Inr \<lparr>major = ma, minor = mi, patch = pa\<rparr>))))"

subsection \<open>Bisection\<close>

text \<open>
  \<^verbatim>\<open>bisect.bisect\<close> is \<^verbatim>\<open>bisect_right\<close> of the standard library, here with a key:
  \<^verbatim>\<open>
  while lo < hi:
      mid = (lo + hi) // 2
      if x < key(a[mid]): hi = mid
      else: lo = mid + 1
  return lo
  \<close>
  \<^verbatim>\<open>a[mid]\<close> raises \<^verbatim>\<open>IndexError\<close> out of range. The comparison is \<^verbatim>\<open>SemVer.__lt__\<close>.
\<close>

function bisect_right ::
  "'a list \<Rightarrow> SemVer \<Rightarrow> nat \<Rightarrow> nat \<Rightarrow> ('a \<Rightarrow> SemVer) \<Rightarrow> exn + nat" where
  "bisect_right a x lo hi key =
     (if lo < hi then
        (if (lo + hi) div 2 < length a then
           (if SemVer_lt x (key (a ! ((lo + hi) div 2)))
            then bisect_right a x lo ((lo + hi) div 2) key
            else bisect_right a x ((lo + hi) div 2 + 1) hi key)
         else Inl IndexError)
      else Inr lo)"
  by pat_completeness auto
termination
  by (relation "measure (\<lambda>(a, x, lo, hi, key). hi - lo)") auto

declare bisect_right.simps [simp del]

text \<open>The call of the module: \<^verbatim>\<open>lo = 0\<close>, \<^verbatim>\<open>hi = len(a)\<close>.\<close>

definition bisect :: "'a list \<Rightarrow> SemVer \<Rightarrow> ('a \<Rightarrow> SemVer) \<Rightarrow> exn + nat" where
  "bisect a x key = bisect_right a x 0 (length a) key"

subsection \<open>The classification\<close>

text \<open>
  \<^verbatim>\<open>_raise_error\<close> always raises a \<^verbatim>\<open>RuntimeError\<close>; its message is the join of the
  header, the newer or older clause, the clause on a previously supported version when one
  is given (the empty string otherwise) and the epilogue.
\<close>

definition raise_error :: "SemVer \<Rightarrow> SemVer \<Rightarrow> SemVer option \<Rightarrow> exn + unit" where
  "raise_error my_version your_version previously_supported =
     Inl (RuntimeError
       ([ERROR_HEADER my_version your_version]
        @ [if SemVer_gt your_version my_version then ERROR_NEWER else ERROR_OLDER]
        @ (case previously_supported of Some v \<Rightarrow> [ERROR_PREVIOUSLY_SUPPORTED v] | None \<Rightarrow> [])
        @ [ERROR_EPILOGUE]))"

text \<open>\<^verbatim>\<open>xs[i]\<close>: a negative index counts from the end; \<^verbatim>\<open>IndexError\<close> out of range.\<close>

definition getitem :: "'a list \<Rightarrow> int \<Rightarrow> exn + 'a" where
  "getitem xs i =
     (if 0 \<le> i \<and> i < int (length xs) then Inr (xs ! nat i)
      else if i < 0 \<and> - int (length xs) \<le> i then Inr (xs ! nat (int (length xs) + i))
      else Inl IndexError)"

text \<open>
  \<^verbatim>\<open>_test_compatibility\<close> never returns (\<^verbatim>\<open>NoReturn\<close>). The result is the list of the
  lines printed to \<^verbatim>\<open>sys.stderr\<close> and the outcome: \<open>Inl\<close> an exception raised, \<open>Inr ()\<close> a
  normal return.
\<close>

definition test_compatibility_inner ::
  "SemVer \<Rightarrow> SemVer \<Rightarrow> (SemVer \<times> SemVer) list \<Rightarrow> string list \<times> (exn + unit)" where
  "test_compatibility_inner latest_supported found_version all_supported_versions =
     (case bisect all_supported_versions found_version fst of
        Inl e \<Rightarrow> ([], Inl e)
      | Inr index \<Rightarrow>
          if index = 0 then ([], raise_error latest_supported found_version None)
          else if is_compatible_with found_version latest_supported
            then ([''versions are compatible... you're fine!''], Inl SystemExit)
          else if index = length all_supported_versions
            then ([], raise_error latest_supported found_version None)
          else
            (case getitem all_supported_versions (int index - 1) of
               Inl e \<Rightarrow> ([], Inl e)
             | Inr (prev_fzf_version, prev_lib_version) \<Rightarrow>
                 if is_compatible_with found_version prev_fzf_version
                 then ([], raise_error latest_supported found_version (Some prev_lib_version))
                 else
                   (case getitem all_supported_versions (int index) of
                      Inl e \<Rightarrow> ([], Inl e)
                    | Inr (prev_fzf_version, prev_lib_version) \<Rightarrow>
                        if is_compatible_with found_version prev_fzf_version
                        then ([], raise_error latest_supported found_version
                                    (Some prev_lib_version))
                        else ([], raise_error latest_supported found_version None))))"

subsection \<open>The entry point\<close>

text \<open>\<^verbatim>\<open>str.strip()\<close>: whitespace is removed at both ends.\<close>

definition strip :: "string \<Rightarrow> string" where
  "strip s = rev (dropWhile is_space (rev (dropWhile is_space s)))"

text \<open>
  \<^verbatim>\<open>_get_installed_fzf_version\<close>: the parameter is the outcome of
  \<^verbatim>\<open>sp.run(['fzf', '--version'], capture_output=True, text=True, check=True).stdout\<close>,
  the exception raised or the text. A \<^verbatim>\<open>ValueError\<close> of the parser gets a note and is
  raised again.
\<close>

definition get_installed_fzf_version :: "exn + string \<Rightarrow> exn + SemVer" where
  "get_installed_fzf_version run_stdout =
     (case run_stdout of
        Inl e \<Rightarrow> Inl e
      | Inr out \<Rightarrow>
          (case from_str (strip out) of
             Inl (ValueError msg notes) \<Rightarrow>
               Inl (ValueError msg
                 (notes @ [''this semver was generated by running 'fzf --version'. '']))
           | r \<Rightarrow> r))"

definition all_supported_versions :: "(SemVer \<times> SemVer) list" where
  "all_supported_versions =
     [(\<lparr>major = 0, minor = 42, patch = 0\<rparr>, \<lparr>major = 0, minor = 1, patch = 0\<rparr>),
      (\<lparr>major = 0, minor = 43, patch = 0\<rparr>, \<lparr>major = 0, minor = 2, patch = 0\<rparr>)]"

definition test_compatibility :: "exn + string \<Rightarrow> string list \<times> (exn + unit)" where
  "test_compatibility run_stdout =
     (case getitem all_supported_versions (- 1) of
        Inl e \<Rightarrow> ([], Inl e)
      | Inr (latest_supported_fzf, _) \<Rightarrow>
          (case get_installed_fzf_version run_stdout of
             Inl e \<Rightarrow> ([], Inl e)
           | Inr found_fzf_version \<Rightarrow>
               test_compatibility_inner latest_supported_fzf found_fzf_version
                 all_supported_versions))"

subsection \<open>Decimal text of a number\<close>

text \<open>
  The claims on parsing speak of the text \<^verbatim>\<open>"{a}.{b}.{c}{suffix}"\<close>. \<open>py_str n\<close> is what
  Python's formatting gives for a non-negative integer: its decimal digits, without
  leading zeros. It is not part of the module; it is only used to state those claims.
\<close>

definition digit_chr :: "nat \<Rightarrow> char" where
  "digit_chr d = ''0123456789'' ! d"

function py_str :: "nat \<Rightarrow> string" where
  "py_str n = (if n < 10 then [digit_chr n] else py_str (n div 10) @ [digit_chr (n mod 10)])"
  by pat_completeness auto
termination
  by (relation "measure id") auto

declare py_str.simps [simp del]

section \<open>Bisection returns the upper bound\<close>

text \<open>
  The loop of \<open>bisect_right\<close> stays within \<open>lo\<close> and \<open>hi\<close> and never reads out of range.
  On a list whose keys increase, the index returned has every key that is not greater
  than \<open>x\<close> on its left and every greater key from it on.
\<close>

lemma bisect_right_done: "\<not> lo < hi \<Longrightarrow> bisect_right a x lo hi key = Inr lo"
  by (subst bisect_right.simps) simp

lemma bisect_right_left:
  "lo < hi \<Longrightarrow> (lo + hi) div 2 < length a \<Longrightarrow> SemVer_lt x (key (a ! ((lo + hi) div 2))) \<Longrightarrow>
   bisect_right a x lo hi key = bisect_right a x lo ((lo + hi) div 2) key"
  by (subst bisect_right.simps) simp

lemma bisect_right_right:
  "lo < hi \<Longrightarrow> (lo + hi) div 2 < length a \<Longrightarrow> \<not> SemVer_lt x (key (a ! ((lo + hi) div 2))) \<Longrightarrow>
   bisect_right a x lo hi key = bisect_right a x ((lo + hi) div 2 + 1) hi key"
  by (subst bisect_right.simps) simp

lemma SemVer_lt_le_trans: "SemVer_lt x m \<Longrightarrow> \<not> SemVer_lt k m \<Longrightarrow> SemVer_lt x k"
  unfolding SemVer_lt_def using less_le_trans not_less by blast

lemma SemVer_not_lt_trans: "\<not> SemVer_lt x m \<Longrightarrow> \<not> SemVer_lt m k \<Longrightarrow> \<not> SemVer_lt x k"
  unfolding SemVer_lt_def using le_less_trans not_less by blast

lemma bisect_right_total:
  "lo \<le> hi \<Longrightarrow> hi \<le> length a \<Longrightarrow>
   \<exists>i. bisect_right a x lo hi key = Inr i \<and> lo \<le> i \<and> i \<le> hi"
proof (induction a x lo hi key rule: bisect_right.induct)
  case (1 a x lo hi key)
  show ?case
  proof (cases "lo < hi")
    case False
    then show ?thesis using "1.prems" by (simp add: bisect_right_done)
  next
    case True
    let ?mid = "(lo + hi) div 2"
    have mid: "lo \<le> ?mid" "?mid < hi" "?mid < length a"
      using True "1.prems" by auto
    show ?thesis
    proof (cases "SemVer_lt x (key (a ! ?mid))")
      case lt: True
      from "1.IH"(1) [OF True mid(3) lt mid(1)] "1.prems" mid
      obtain i where "bisect_right a x lo ?mid key = Inr i" "lo \<le> i" "i \<le> ?mid"
        by auto
      then show ?thesis unfolding bisect_right_left [where lo=lo and hi=hi and a=a and x=x and key=key, OF True mid(3) lt] using mid by auto
    next
      case ge: False
      have "?mid + 1 \<le> hi" using mid by simp
      from "1.IH"(2) [OF True mid(3) ge this] "1.prems"
      obtain i where "bisect_right a x (?mid + 1) hi key = Inr i" "?mid + 1 \<le> i" "i \<le> hi"
        by auto
      then show ?thesis unfolding bisect_right_right [where lo=lo and hi=hi and a=a and x=x and key=key, OF True mid(3) ge] using mid by auto
    qed
  qed
qed

lemma bisect_right_sorted:
  "sorted_wrt (\<lambda>p q. \<not> SemVer_lt (key q) (key p)) a \<Longrightarrow>
   lo \<le> hi \<Longrightarrow> hi \<le> length a \<Longrightarrow>
   (\<forall>j<lo. \<not> SemVer_lt x (key (a ! j))) \<Longrightarrow>
   (\<forall>j. hi \<le> j \<and> j < length a \<longrightarrow> SemVer_lt x (key (a ! j))) \<Longrightarrow>
   \<exists>i. bisect_right a x lo hi key = Inr i \<and> i \<le> length a \<and>
       (\<forall>j<i. \<not> SemVer_lt x (key (a ! j))) \<and>
       (\<forall>j. i \<le> j \<and> j < length a \<longrightarrow> SemVer_lt x (key (a ! j)))"
proof (induction a x lo hi key rule: bisect_right.induct)
  case (1 a x lo hi key)
  note srt = "1.prems"(1)
  note srt' = srt [unfolded sorted_wrt_iff_nth_less, rule_format]
  show ?case
  proof (cases "lo < hi")
    case False
    then have "lo = hi" using "1.prems"(2) by simp
    then show ?thesis using "1.prems" False by (auto simp: bisect_right_done)
  next
    case True
    let ?mid = "(lo + hi) div 2"
    have mid: "lo \<le> ?mid" "?mid < hi" "?mid < length a"
      using True "1.prems" by auto
    show ?thesis
    proof (cases "SemVer_lt x (key (a ! ?mid))")
      case lt: True
      have up: "\<forall>j. ?mid \<le> j \<and> j < length a \<longrightarrow> SemVer_lt x (key (a ! j))"
      proof (intro allI impI)
        fix j assume j: "?mid \<le> j \<and> j < length a"
        show "SemVer_lt x (key (a ! j))"
        proof (cases "j = ?mid")
          case True then show ?thesis using lt by simp
        next
          case False
          then have "?mid < j" using j by simp
          then have "\<not> SemVer_lt (key (a ! j)) (key (a ! ?mid))" using srt' [of ?mid j] j by blast
          then show ?thesis using lt by (rule SemVer_lt_le_trans [rotated])
        qed
      qed
      have "?mid \<le> length a" using mid by simp
      from "1.IH"(1) [OF True mid(3) lt srt mid(1) this "1.prems"(4) up]
      show ?thesis unfolding bisect_right_left [where lo=lo and hi=hi and a=a and x=x and key=key, OF True mid(3) lt] .
    next
      case ge: False
      have lowpart: "\<forall>j<?mid + 1. \<not> SemVer_lt x (key (a ! j))"
      proof (intro allI impI)
        fix j assume j: "j < ?mid + 1"
        show "\<not> SemVer_lt x (key (a ! j))"
        proof (cases "j = ?mid")
          case True then show ?thesis using ge by simp
        next
          case False
          then have "j < ?mid" using j by simp
          then have "\<not> SemVer_lt (key (a ! ?mid)) (key (a ! j))" using srt' [of j ?mid] mid by blast
          then show ?thesis using ge by (rule SemVer_not_lt_trans [rotated])
        qed
      qed
      have "?mid + 1 \<le> hi" using mid by simp
      from "1.IH"(2) [OF True mid(3) ge srt this "1.prems"(3) lowpart "1.prems"(5)]
      show ?thesis unfolding bisect_right_right [where lo=lo and hi=hi and a=a and x=x and key=key, OF True mid(3) ge] .
    qed
  qed
qed


lemma bisect_total: "\<exists>i. bisect a x key = Inr i \<and> i \<le> length a"
  using bisect_right_total [of 0 "length a" a x key] by (auto simp: bisect_def)

lemma strict_imp_weak:
  "sorted_wrt (\<lambda>p q. SemVer_lt (key p) (key q)) a \<Longrightarrow>
   sorted_wrt (\<lambda>p q. \<not> SemVer_lt (key q) (key p)) a"
  by (erule sorted_wrt_mono_rel [rotated]) (auto simp: SemVer_lt_def)

lemma bisect_sorted:
  assumes "sorted_wrt (\<lambda>p q. SemVer_lt (key p) (key q)) a"
  shows "\<exists>i. bisect a x key = Inr i \<and> i \<le> length a \<and>
       (\<forall>j<i. \<not> SemVer_lt x (key (a ! j))) \<and>
       (\<forall>j. i \<le> j \<and> j < length a \<longrightarrow> SemVer_lt x (key (a ! j)))"
  unfolding bisect_def
  by (rule bisect_right_sorted [OF strict_imp_weak [OF assms]]) auto

text \<open>
  Consequences: below the first key the index is 0; at a key of the list the index is the
  one after it; at the last key it is the length of the list.
\<close>

lemma bisect_below_first:
  assumes "table \<noteq> []" "sorted_wrt (\<lambda>p q. SemVer_lt (key p) (key q)) table"
    "SemVer_lt found (key (hd table))"
  shows "bisect table found key = Inr 0"
proof -
  obtain i where i: "bisect table found key = Inr i"
    "\<forall>j<i. \<not> SemVer_lt found (key (table ! j))"
    using bisect_sorted [OF assms(2)] by blast
  have "i = 0"
  proof (rule ccontr)
    assume "i \<noteq> 0"
    then have "\<not> SemVer_lt found (key (table ! 0))" using i(2) by simp
    then show False using assms(1,3) by (simp add: hd_conv_nth)
  qed
  then show ?thesis using i(1) by simp
qed

lemma bisect_equal_entry:
  assumes "sorted_wrt (\<lambda>p q. SemVer_lt (key p) (key q)) table" "k < length table"
    "found = key (table ! k)"
  shows "bisect table found key = Inr (Suc k)"
proof -
  obtain i where i: "bisect table found key = Inr i" "i \<le> length table"
    "\<forall>j<i. \<not> SemVer_lt found (key (table ! j))"
    "\<forall>j. i \<le> j \<and> j < length table \<longrightarrow> SemVer_lt found (key (table ! j))"
    using bisect_sorted [OF assms(1)] by blast
  have irr: "\<not> SemVer_lt found found" by (simp add: SemVer_lt_def)
  have "k < i"
  proof (rule ccontr)
    assume "\<not> k < i"
    then have "SemVer_lt found (key (table ! k))" using i(4) assms(2) by simp
    then show False using irr assms(3) by simp
  qed
  moreover have "\<not> Suc k < i"
  proof
    assume a: "Suc k < i"
    then have "Suc k < length table" using i(2) by simp
    then have "SemVer_lt (key (table ! k)) (key (table ! Suc k))"
      using assms(1) by (simp add: sorted_wrt_iff_nth_less)
    moreover have "\<not> SemVer_lt found (key (table ! Suc k))" using i(3) a by simp
    ultimately show False using assms(3) by simp
  qed
  ultimately have "i = Suc k" by simp
  then show ?thesis using i(1) by simp
qed

lemma bisect_last_entry:
  assumes "table \<noteq> []" "sorted_wrt (\<lambda>p q. SemVer_lt (key p) (key q)) table"
  shows "bisect table (key (last table)) key = Inr (length table)"
  using bisect_equal_entry [OF assms(2), of "length table - 1" "key (last table)"] assms(1)
  by (simp add: last_conv_nth)

section \<open>The branches of the classification\<close>

lemma getitem_nat: "i < length xs \<Longrightarrow> getitem xs (int i) = Inr (xs ! i)"
  by (simp add: getitem_def)

lemma getitem_pred: "0 < i \<Longrightarrow> i \<le> length xs \<Longrightarrow> getitem xs (int i - 1) = Inr (xs ! (i - 1))"
  using getitem_nat [of "i - 1" xs] by (simp add: of_nat_diff)

lemma inner_index_0:
  "bisect table found fst = Inr 0 \<Longrightarrow>
   test_compatibility_inner latest found table = ([], raise_error latest found None)"
  by (simp add: test_compatibility_inner_def)

lemma inner_compatible:
  "bisect table found fst = Inr i \<Longrightarrow> i \<noteq> 0 \<Longrightarrow> is_compatible_with found latest \<Longrightarrow>
   test_compatibility_inner latest found table =
     ([''versions are compatible... you're fine!''], Inl SystemExit)"
  by (simp add: test_compatibility_inner_def)

lemma inner_index_len:
  "bisect table found fst = Inr (length table) \<Longrightarrow> \<not> is_compatible_with found latest \<Longrightarrow>
   test_compatibility_inner latest found table = ([], raise_error latest found None)"
  by (simp add: test_compatibility_inner_def)

lemma inner_middle:
  assumes "bisect table found fst = Inr i" "0 < i" "i < length table"
    "\<not> is_compatible_with found latest"
  shows "test_compatibility_inner latest found table =
     (if is_compatible_with found (fst (table ! (i - 1)))
      then ([], raise_error latest found (Some (snd (table ! (i - 1)))))
      else if is_compatible_with found (fst (table ! i))
      then ([], raise_error latest found (Some (snd (table ! i))))
      else ([], raise_error latest found None))"
proof -
  have a: "getitem table (int i - 1) = Inr (table ! (i - 1))"
    using assms by (simp add: getitem_pred)
  have b: "getitem table (int i) = Inr (table ! i)"
    using assms by (simp add: getitem_nat)
  show ?thesis
    using assms by (simp add: test_compatibility_inner_def a b split: prod.splits)
qed

lemma inner_cases:
  "test_compatibility_inner latest found table =
     ([''versions are compatible... you're fine!''], Inl SystemExit) \<or>
   (\<exists>prev. test_compatibility_inner latest found table = ([], raise_error latest found prev))"
proof -
  obtain i where i: "bisect table found fst = Inr i" "i \<le> length table"
    using bisect_total by blast
  show ?thesis
  proof (cases "i = 0")
    case True
    then show ?thesis using i inner_index_0 by blast
  next
    case nz: False
    show ?thesis
    proof (cases "is_compatible_with found latest")
      case True
      then show ?thesis using i nz inner_compatible by blast
    next
      case nc: False
      show ?thesis
      proof (cases "i = length table")
        case True
        then show ?thesis using i nc inner_index_len by blast
      next
        case False
        then have "i < length table" "0 < i" using i nz by auto
        from inner_middle [OF i(1) this(2) this(1) nc] show ?thesis
          by (auto split: if_splits)
      qed
    qed
  qed
qed

lemma raise_error_None:
  "raise_error my your None =
     Inl (RuntimeError [ERROR_HEADER my your,
            if SemVer_gt your my then ERROR_NEWER else ERROR_OLDER, ERROR_EPILOGUE])"
  by (simp add: raise_error_def)

lemma raise_error_Some:
  "raise_error my your (Some v) =
     Inl (RuntimeError [ERROR_HEADER my your,
            if SemVer_gt your my then ERROR_NEWER else ERROR_OLDER,
            ERROR_PREVIOUSLY_SUPPORTED v, ERROR_EPILOGUE])"
  by (simp add: raise_error_def)

lemma static_bisect:
  "bisect all_supported_versions \<lparr>major = 0, minor = 10, patch = 0\<rparr> fst = Inr 0"
  "bisect all_supported_versions \<lparr>major = 0, minor = 42, patch = 0\<rparr> fst = Inr 1"
  "bisect all_supported_versions \<lparr>major = 0, minor = 43, patch = 5\<rparr> fst = Inr 2"
  "bisect all_supported_versions \<lparr>major = 0, minor = 44, patch = 0\<rparr> fst = Inr 2"
  by (simp_all add: bisect_def bisect_right.simps all_supported_versions_def SemVer_lt_def
        astuple_def)

lemma static_sorted:
  "sorted_wrt (\<lambda>p q. SemVer_lt (fst p) (fst q)) all_supported_versions"
  by (simp add: all_supported_versions_def SemVer_lt_def astuple_def)

lemma astuple_inject: "astuple v = astuple w \<Longrightarrow> v = w"
  by (cases v, cases w) (simp add: astuple_def)

lemma SemVer_trichotomy: "v \<noteq> w \<Longrightarrow> SemVer_gt v w \<or> SemVer_lt v w"
  using astuple_inject [of v w] not_less_iff_gr_or_eq [of "astuple v" "astuple w"]
  unfolding SemVer_gt_def SemVer_lt_def by blast

lemma SemVer_gt_not_lt: "SemVer_gt v w \<Longrightarrow> \<not> SemVer_lt v w"
  by (auto simp: SemVer_gt_def SemVer_lt_def)

lemma raise_error_parts:
  "raise_error my your prev = Inl (RuntimeError parts) \<Longrightarrow>
   (ERROR_NEWER \<in> set parts \<longleftrightarrow> SemVer_gt your my) \<and>
   (ERROR_OLDER \<in> set parts \<longleftrightarrow> \<not> SemVer_gt your my)"
  by (cases prev; cases "SemVer_gt your my") (auto simp: raise_error_def)

section \<open>The matches of the pattern\<close>

text \<open>
  As the pattern starts with \<^verbatim>\<open>^\<close>, a search is a match at position 0. The greedy
  alternative is the first one tried, so a text made of a run of digits, a dot, a run of
  digits, one character that is not a digit, and a run of digits that ends the text or is
  followed by a character that is not a digit, is matched with these three runs as groups.
\<close>

lemma first_some_map_None: "(\<And>x. x \<in> set xs \<Longrightarrow> f x = None) \<Longrightarrow> first_some (map f xs) = None"
  by (induction xs) auto

lemma first_some_Cons: "first_some (x # xs) = (case x of Some v \<Rightarrow> Some v | None \<Rightarrow> first_some xs)"
  by (cases x) auto

lemma re_match_Bol_later: "pos \<noteq> 0 \<Longrightarrow> re_match (Bol # p) pos s = None"
  by simp

lemma re_match_Bol_start: "re_match (Bol # p) 0 s = re_match p 0 s"
  by (cases "re_match p 0 s") (simp_all add: option.map_id0)

lemma re_search_Bol: "re_search (Bol # p) s = re_match (Bol # p) 0 s"
proof -
  have "[0 ..< Suc (length s)] = 0 # [1 ..< Suc (length s)]"
    by (simp del: upt_Suc add: upt_conv_Cons)
  moreover have "first_some (map (\<lambda>i. re_match (Bol # p) i (drop i s)) [1 ..< Suc (length s)]) = None"
  proof (rule first_some_map_None)
    fix x assume "x \<in> set [1 ..< Suc (length s)]"
    then have "x \<noteq> 0" by auto
    then show "re_match (Bol # p) x (drop x s) = None" by (rule re_match_Bol_later)
  qed
  ultimately show ?thesis
    by (simp del: re_match.simps upt_Suc add: re_search_def first_some_Cons split: option.splits)
qed

lemma in_cset_Digit: "in_cset Digit = is_digit"
  by (rule ext) simp

lemma re_match_Many0_last: "re_match [Many0 c] pos s = Some Map.empty"
  by simp

lemma re_match_One:
  "in_cset c x \<Longrightarrow> re_match (One c # p) pos (x # r) = re_match p (pos + 1) r"
  by (cases "re_match p (pos + 1) r") simp_all

lemma re_match_Many1_greedy:
  assumes "takeWhile (in_cset c) s = d" "d \<noteq> []"
    "re_match p (pos + length d) (drop (length d) s) = Some g"
  shows "re_match (Named nm (Many1 c) # p) pos s = Some (g(nm \<mapsto> d))"
proof -
  have k: "1 \<le> length d" using assms(2) by (cases d) simp_all
  have sp: "spans (Named nm (Many1 c)) pos s = length d # rev [1 ..< length d]"
    using k assms(1) by simp
  have tk: "take (length d) s = d"
    using assms(1) takeWhile_eq_take [of "in_cset c" s] by simp
  show ?thesis
    unfolding re_match.simps(2) sp using assms(3) tk by simp
qed

lemma re_match_Many1_none:
  "takeWhile (in_cset c) s = [] \<Longrightarrow> re_match (Named nm (Many1 c) # p) pos s = None"
  by simp

lemma not_digit_dot: "\<not> is_digit CHR ''.''"
  by (simp add: is_digit_def)

lemma takeWhile_digits_stop:
  "list_all is_digit d \<Longrightarrow> \<not> is_digit ch \<Longrightarrow> takeWhile (in_cset Digit) (d @ ch # r) = d"
  by (simp add: in_cset_Digit list_all_iff takeWhile_append2)

lemma takeWhile_digits_rest:
  "list_all is_digit d \<Longrightarrow> takeWhile is_digit r = [] \<Longrightarrow> takeWhile (in_cset Digit) (d @ r) = d"
  by (simp add: in_cset_Digit list_all_iff takeWhile_append2)

lemma re_search_greedy:
  assumes d1: "d1 \<noteq> []" "list_all is_digit d1"
    and d2: "d2 \<noteq> []" "list_all is_digit d2"
    and d3: "d3 \<noteq> []" "list_all is_digit d3"
    and ch: "ch \<noteq> CHR 0x0A" "\<not> is_digit ch"
    and rest: "takeWhile is_digit rest = []"
  shows "re_search RE_SEMVER (d1 @ CHR ''.'' # d2 @ ch # d3 @ rest) =
           Some [''patch'' \<mapsto> d3, ''minor'' \<mapsto> d2, ''major'' \<mapsto> d1]"
proof -
  have p: "re_match [Named ''patch'' (Many1 Digit), Many0 NonSpace] pos (d3 @ rest) =
             Some [''patch'' \<mapsto> d3]" for pos
    by (rule re_match_Many1_greedy [OF takeWhile_digits_rest [OF d3(2) rest] d3(1)])
       (rule re_match_Many0_last)
  have sep2: "re_match [One AnyChar, Named ''patch'' (Many1 Digit), Many0 NonSpace] pos
             (ch # d3 @ rest) = Some [''patch'' \<mapsto> d3]" for pos
  proof -
    have "in_cset AnyChar ch" using ch(1) by simp
    then show ?thesis by (simp only: re_match_One p)
  qed
  have mi: "re_match [Named ''minor'' (Many1 Digit), One AnyChar,
               Named ''patch'' (Many1 Digit), Many0 NonSpace] pos (d2 @ ch # d3 @ rest) =
             Some [''patch'' \<mapsto> d3, ''minor'' \<mapsto> d2]" for pos
    by (rule re_match_Many1_greedy [OF takeWhile_digits_stop [OF d2(2) ch(2)] d2(1)])
       (simp only: drop_append drop_all order_refl diff_self_eq_0 drop_0 append_Nil sep2)
  have sep1: "re_match [One (Lit CHR ''.''), Named ''minor'' (Many1 Digit), One AnyChar,
               Named ''patch'' (Many1 Digit), Many0 NonSpace] pos
               (CHR ''.'' # d2 @ ch # d3 @ rest) =
             Some [''patch'' \<mapsto> d3, ''minor'' \<mapsto> d2]" for pos
  proof -
    have "in_cset (Lit CHR ''.'') CHR ''.''" by simp
    then show ?thesis by (simp only: re_match_One mi)
  qed
  have ma: "re_match [Named ''major'' (Many1 Digit), One (Lit CHR ''.''),
               Named ''minor'' (Many1 Digit), One AnyChar,
               Named ''patch'' (Many1 Digit), Many0 NonSpace] pos
               (d1 @ CHR ''.'' # d2 @ ch # d3 @ rest) =
             Some [''patch'' \<mapsto> d3, ''minor'' \<mapsto> d2, ''major'' \<mapsto> d1]" for pos
    by (rule re_match_Many1_greedy [OF takeWhile_digits_stop [OF d1(2) not_digit_dot] d1(1)])
       (simp only: drop_append drop_all order_refl diff_self_eq_0 drop_0 append_Nil sep1)
  show ?thesis
    unfolding RE_SEMVER_def re_search_Bol re_match_Bol_start by (rule ma)
qed

lemma py_int_digits:
  "d \<noteq> [] \<Longrightarrow> list_all is_digit d \<Longrightarrow>
   py_int d = Inr (foldl (\<lambda>acc c. 10 * acc + digit_val c) 0 d)"
  by (simp add: py_int_def)

lemma from_str_greedy:
  assumes d1: "d1 \<noteq> []" "list_all is_digit d1"
    and d2: "d2 \<noteq> []" "list_all is_digit d2"
    and d3: "d3 \<noteq> []" "list_all is_digit d3"
    and ch: "ch \<noteq> CHR 0x0A" "\<not> is_digit ch"
    and rest: "takeWhile is_digit rest = []"
  shows "from_str (d1 @ CHR ''.'' # d2 @ ch # d3 @ rest) =
           Inr \<lparr>major = foldl (\<lambda>acc c. 10 * acc + digit_val c) 0 d1,
                minor = foldl (\<lambda>acc c. 10 * acc + digit_val c) 0 d2,
                patch = foldl (\<lambda>acc c. 10 * acc + digit_val c) 0 d3\<rparr>"
  unfolding from_str_def re_search_greedy [OF assms]
  by (simp add: group_def and_then_def py_int_digits d1 d2 d3)

lemma is_digit_digit_chr: "d < 10 \<Longrightarrow> is_digit (digit_chr d)"
proof -
  assume "d < 10"
  then have "d \<in> {0, 1, 2, 3, 4, 5, 6, 7, 8, 9}" by auto
  then show ?thesis
    by (auto simp: is_digit_def digit_chr_def)
qed

lemma digit_val_digit_chr: "d < 10 \<Longrightarrow> digit_val (digit_chr d) = int d"
proof -
  assume "d < 10"
  then have "d \<in> {0, 1, 2, 3, 4, 5, 6, 7, 8, 9}" by auto
  then show ?thesis
    by (auto simp: digit_val_def digit_chr_def)
qed

lemma py_str_nonempty: "py_str n \<noteq> []"
  by (subst py_str.simps) simp

lemma py_str_digits: "list_all is_digit (py_str n)"
proof (induction n rule: py_str.induct)
  case (1 n)
  show ?case
  proof (cases "n < 10")
    case True
    then show ?thesis by (subst py_str.simps) (simp add: is_digit_digit_chr)
  next
    case False
    then show ?thesis using "1.IH"
      by (subst py_str.simps) (simp add: is_digit_digit_chr)
  qed
qed

lemma py_str_value: "foldl (\<lambda>acc c. 10 * acc + digit_val c) 0 (py_str n) = int n"
proof (induction n rule: py_str.induct)
  case (1 n)
  show ?case
  proof (cases "n < 10")
    case True
    then show ?thesis by (subst py_str.simps) (simp add: digit_val_digit_chr)
  next
    case False
    then show ?thesis using "1.IH"
      by (subst py_str.simps) (simp add: digit_val_digit_chr zdiv_int zmod_int)
  qed
qed

lemma from_str_no_leading_digit:
  assumes "takeWhile is_digit s = []"
  shows "from_str s = Inl (ValueError (''can't parse given semver: '' @ s) [])"
proof -
  have "re_match RE_SEMVER 0 s = None"
    unfolding RE_SEMVER_def re_match_Bol_start
    by (rule re_match_Many1_none) (simp add: in_cset_Digit assms)
  then have "re_search RE_SEMVER s = None"
    using re_search_Bol [of "tl RE_SEMVER" s] by (simp add: RE_SEMVER_def)
  then show ?thesis by (simp add: from_str_def)
qed

lemma from_str_decimal:
  assumes "takeWhile is_digit suffix = []"
  shows "from_str (py_str a @ ''.'' @ py_str b @ ''.'' @ py_str c @ suffix) =
           Inr \<lparr>major = int a, minor = int b, patch = int c\<rparr>"
  using from_str_greedy [OF py_str_nonempty py_str_digits py_str_nonempty py_str_digits
      py_str_nonempty py_str_digits _ not_digit_dot assms, of a b c]
  by (simp add: py_str_value)

text \<open>
  Conversely, every match splits the text into a run of digits, a dot, a run of digits,
  one character other than a newline, a run of digits and a rest. So \<open>from_str\<close> either
  raises the \<^verbatim>\<open>ValueError\<close> of the module or returns the values of three runs of digits:
  the error branches of \<open>group\<close> and \<open>py_int\<close> are never taken.
\<close>

lemma first_some_map_Some:
  "first_some (map f xs) = Some v \<Longrightarrow> \<exists>x\<in>set xs. f x = Some v"
proof (induction xs)
  case Nil
  then show ?case by simp
next
  case (Cons a xs)
  then show ?case by (cases "f a") auto
qed

lemma re_match_Many1_Some:
  assumes "re_match (Named nm (Many1 c) # p) pos s = Some g"
  shows "\<exists>k g'. 1 \<le> k \<and> k \<le> length (takeWhile (in_cset c) s)
           \<and> re_match p (pos + k) (drop k s) = Some g' \<and> g = g'(nm \<mapsto> take k s)"
proof -
  from assms obtain k where k: "k \<in> set (spans (Named nm (Many1 c)) pos s)"
    "map_option (bind_group (Named nm (Many1 c)) (take k s)) (re_match p (pos + k) (drop k s))
       = Some g"
    unfolding re_match.simps by (blast dest: first_some_map_Some)
  from k(2) obtain g' where "re_match p (pos + k) (drop k s) = Some g'" "g = g'(nm \<mapsto> take k s)"
    by auto
  moreover have "1 \<le> k \<and> k \<le> length (takeWhile (in_cset c) s)"
    using k(1) by auto
  ultimately show ?thesis by blast
qed

lemma re_match_One_Some:
  assumes "re_match (One c # p) pos s = Some g"
  shows "\<exists>x r. s = x # r \<and> in_cset c x \<and> re_match p (pos + 1) r = Some g"
proof -
  from assms obtain k where k: "k \<in> set (spans (One c) pos s)"
    "map_option (bind_group (One c) (take k s)) (re_match p (pos + k) (drop k s)) = Some g"
    unfolding re_match.simps by (blast dest: first_some_map_Some)
  from k(1) obtain x r where "s = x # r" "in_cset c x" "k = 1"
    by (cases s) (auto split: if_splits)
  then show ?thesis using k(2) by auto
qed

lemma take_digit_run:
  assumes "1 \<le> k" "k \<le> length (takeWhile P s)"
  shows "take k s \<noteq> [] \<and> list_all P (take k s) \<and> length (take k s) = k"
proof -
  have le: "k \<le> length s"
    using assms(2) length_takeWhile_le [of P s] by simp
  have "take k s = take k (takeWhile P s)"
    using assms(2) by (metis takeWhile_eq_take take_take min.absorb1 min.commute)
  moreover have "set (take k (takeWhile P s)) \<subseteq> set (takeWhile P s)"
    by (rule set_take_subset)
  ultimately have "list_all P (take k s)"
    by (auto simp: list_all_iff dest: set_takeWhileD)
  moreover have "take k s \<noteq> []" using assms(1) le by (cases s) auto
  ultimately show ?thesis using le by simp
qed

lemma re_search_Some:
  assumes "re_search RE_SEMVER s = Some g"
  shows "\<exists>d1 d2 ch d3 rest.
           s = d1 @ CHR ''.'' # d2 @ ch # d3 @ rest
           \<and> d1 \<noteq> [] \<and> list_all is_digit d1
           \<and> d2 \<noteq> [] \<and> list_all is_digit d2
           \<and> d3 \<noteq> [] \<and> list_all is_digit d3
           \<and> ch \<noteq> CHR 0x0A
           \<and> g = [''patch'' \<mapsto> d3, ''minor'' \<mapsto> d2, ''major'' \<mapsto> d1]"
proof -
  have m0: "re_match [Named ''major'' (Many1 Digit), One (Lit CHR ''.''),
               Named ''minor'' (Many1 Digit), One AnyChar,
               Named ''patch'' (Many1 Digit), Many0 NonSpace] 0 s = Some g"
    using assms unfolding RE_SEMVER_def re_search_Bol re_match_Bol_start .
  from re_match_Many1_Some [OF m0] obtain k1 g1 where
    k1: "1 \<le> k1" "k1 \<le> length (takeWhile is_digit s)"
    and m1: "re_match [One (Lit CHR ''.''), Named ''minor'' (Many1 Digit), One AnyChar,
               Named ''patch'' (Many1 Digit), Many0 NonSpace] (0 + k1) (drop k1 s) = Some g1"
    and g: "g = g1(''major'' \<mapsto> take k1 s)"
    unfolding in_cset_Digit by blast
  from re_match_One_Some [OF m1] obtain r1 where
    s1: "drop k1 s = CHR ''.'' # r1"
    and m2: "re_match [Named ''minor'' (Many1 Digit), One AnyChar,
               Named ''patch'' (Many1 Digit), Many0 NonSpace] (0 + k1 + 1) r1 = Some g1"
    by auto
  from re_match_Many1_Some [OF m2] obtain k2 g2 where
    k2: "1 \<le> k2" "k2 \<le> length (takeWhile is_digit r1)"
    and m3: "re_match [One AnyChar, Named ''patch'' (Many1 Digit), Many0 NonSpace]
               (0 + k1 + 1 + k2) (drop k2 r1) = Some g2"
    and g1: "g1 = g2(''minor'' \<mapsto> take k2 r1)"
    unfolding in_cset_Digit by blast
  from re_match_One_Some [OF m3] obtain ch r2 where
    s2: "drop k2 r1 = ch # r2" and ch: "ch \<noteq> CHR 0x0A"
    and m4: "re_match [Named ''patch'' (Many1 Digit), Many0 NonSpace]
               (0 + k1 + 1 + k2 + 1) r2 = Some g2"
    by auto
  from re_match_Many1_Some [OF m4] obtain k3 g3 where
    k3: "1 \<le> k3" "k3 \<le> length (takeWhile is_digit r2)"
    and m5: "re_match [Many0 NonSpace] (0 + k1 + 1 + k2 + 1 + k3) (drop k3 r2) = Some g3"
    and g2: "g2 = g3(''patch'' \<mapsto> take k3 r2)"
    unfolding in_cset_Digit by blast
  have g3: "g3 = Map.empty"
    using m5 unfolding re_match_Many0_last by simp
  have "s = take k1 s @ drop k1 s" by simp
  also have "\<dots> = take k1 s @ CHR ''.'' # r1" by (simp only: s1)
  also have "r1 = take k2 r1 @ drop k2 r1" by simp
  also have "\<dots> = take k2 r1 @ ch # r2" by (simp only: s2)
  also have "r2 = take k3 r2 @ drop k3 r2" by simp
  finally have "s = take k1 s @ CHR ''.'' # take k2 r1 @ ch # take k3 r2 @ drop k3 r2" .
  moreover have "g = [''patch'' \<mapsto> take k3 r2, ''minor'' \<mapsto> take k2 r1, ''major'' \<mapsto> take k1 s]"
    by (simp only: g g1 g2 g3)
  ultimately show ?thesis
    using take_digit_run [OF k1] take_digit_run [OF k2] take_digit_run [OF k3] ch
    by blast
qed

lemma from_str_cases:
  "from_str s = Inl (ValueError (''can't parse given semver: '' @ s) []) \<or>
   (\<exists>d1 d2 ch d3 rest.
      s = d1 @ CHR ''.'' # d2 @ ch # d3 @ rest
      \<and> d1 \<noteq> [] \<and> list_all is_digit d1
      \<and> d2 \<noteq> [] \<and> list_all is_digit d2
      \<and> d3 \<noteq> [] \<and> list_all is_digit d3
      \<and> ch \<noteq> CHR 0x0A
      \<and> from_str s = Inr \<lparr>major = foldl (\<lambda>acc c. 10 * acc + digit_val c) 0 d1,
                           minor = foldl (\<lambda>acc c. 10 * acc + digit_val c) 0 d2,
                           patch = foldl (\<lambda>acc c. 10 * acc + digit_val c) 0 d3\<rparr>)"
proof (cases "re_search RE_SEMVER s")
  case None
  then show ?thesis by (simp add: from_str_def)
next
  case (Some g)
  from re_search_Some [OF Some] obtain d1 d2 ch d3 rest where
    f: "s = d1 @ CHR ''.'' # d2 @ ch # d3 @ rest"
      "d1 \<noteq> []" "list_all is_digit d1" "d2 \<noteq> []" "list_all is_digit d2"
      "d3 \<noteq> []" "list_all is_digit d3" "ch \<noteq> CHR 0x0A"
      "g = [''patch'' \<mapsto> d3, ''minor'' \<mapsto> d2, ''major'' \<mapsto> d1]"
    by blast
  have "from_str s = Inr \<lparr>major = foldl (\<lambda>acc c. 10 * acc + digit_val c) 0 d1,
                           minor = foldl (\<lambda>acc c. 10 * acc + digit_val c) 0 d2,
                           patch = foldl (\<lambda>acc c. 10 * acc + digit_val c) 0 d3\<rparr>"
    unfolding from_str_def Some f(9)
    by (simp add: group_def and_then_def py_int_digits f(2-7))
  then show ?thesis using f by blast
qed

section \<open>The module on the scenarios of its specification\<close>

text \<open>
  The entry point on the text that \<^verbatim>\<open>fzf --version\<close> prints, and the parser alone, evaluated
  on the examples of the specification.
\<close>

lemma scenario_A:
  "test_compatibility (Inr ''0.43.5'') =
     ([''versions are compatible... you're fine!''], Inl SystemExit)"
  by code_simp

lemma scenario_B:
  "test_compatibility (Inr ''0.42.0'') =
     ([], Inl (RuntimeError
        [ERROR_HEADER \<lparr>major = 0, minor = 43, patch = 0\<rparr> \<lparr>major = 0, minor = 42, patch = 0\<rparr>,
         ERROR_OLDER, ERROR_PREVIOUSLY_SUPPORTED \<lparr>major = 0, minor = 1, patch = 0\<rparr>,
         ERROR_EPILOGUE]))"
  by code_simp

lemma scenario_C:
  "test_compatibility (Inr ''0.44.0'') =
     ([], Inl (RuntimeError
        [ERROR_HEADER \<lparr>major = 0, minor = 43, patch = 0\<rparr> \<lparr>major = 0, minor = 44, patch = 0\<rparr>,
         ERROR_NEWER, ERROR_EPILOGUE]))"
  by code_simp

lemma scenario_D:
  "test_compatibility (Inr ''0.10.0'') =
     ([], Inl (RuntimeError
        [ERROR_HEADER \<lparr>major = 0, minor = 43, patch = 0\<rparr> \<lparr>major = 0, minor = 10, patch = 0\<rparr>,
         ERROR_OLDER, ERROR_EPILOGUE]))"
  by code_simp

lemma scenario_E: "from_str ''0.43.1-abc123'' = Inr \<lparr>major = 0, minor = 43, patch = 1\<rparr>"
  by code_simp

lemma scenario_F:
  "from_str ''banana'' = Inl (ValueError ''can't parse given semver: banana'' [])"
  "from_str ''not-a-version'' = Inl (ValueError ''can't parse given semver: not-a-version'' [])"
  "from_str '''' = Inl (ValueError ''can't parse given semver: '' [])"
  by code_simp+

lemma fzf_output:
  "test_compatibility (Inr (''0.43.0 (d3311d9)'' @ [CHR 0x0A])) =
     ([''versions are compatible... you're fine!''], Inl SystemExit)"
  "test_compatibility (Inr ''fzf: command output'') =
     ([], Inl (ValueError ''can't parse given semver: fzf: command output''
                 [''this semver was generated by running 'fzf --version'. '']))"
  "test_compatibility (Inl SubprocessError) = ([], Inl SubprocessError)"
  by code_simp+

section \<open>Release compatibility\<close>

text \<open>
  Claim C8. \<open>is_compatible_with\<close> holds exactly when the two versions have the same major
  and the same minor number; the patch numbers play no part. It is reflexive; 0.42.0 is
  compatible with 0.42.9 and not with 0.43.0.
\<close>

theorem release_compatibility:
  "(is_compatible_with v1 v2 \<longleftrightarrow> major v1 = major v2 \<and> minor v1 = minor v2)
   \<and> is_compatible_with (v1\<lparr>patch := p\<rparr>) (v2\<lparr>patch := q\<rparr>) = is_compatible_with v1 v2
   \<and> is_compatible_with v1 v1
   \<and> is_compatible_with \<lparr>major = 0, minor = 42, patch = 0\<rparr> \<lparr>major = 0, minor = 42, patch = 9\<rparr>
   \<and> \<not> is_compatible_with \<lparr>major = 0, minor = 42, patch = 0\<rparr> \<lparr>major = 0, minor = 43, patch = 0\<rparr>"
  by (simp add: is_compatible_with_def)

section \<open>The verdicts of the classification\<close>

text \<open>
  The module has no verdict value: \<^verbatim>\<open>_test_compatibility\<close> ends by raising. The verdict
  Compatible of the specification is the line printed to \<^verbatim>\<open>sys.stderr\<close> followed by
  \<^verbatim>\<open>SystemExit\<close>; the verdict Incompatible is the \<^verbatim>\<open>RuntimeError\<close> of \<^verbatim>\<open>_raise_error\<close>,
  whose message has the part \<open>ERROR_PREVIOUSLY_SUPPORTED v\<close> exactly when a fallback library
  version \<open>v\<close> is recommended.
\<close>

text \<open>
  Claim C2. An installed version that is release-compatible with the latest supported
  version, at an insertion position other than 0, is classified as compatible. The test
  comes before the test for the end of the table, so the position may be the length of
  the table: 0.43.5 is beyond both entries of the table of the module and is compatible.
\<close>

theorem compatible_with_latest:
  assumes "bisect table found fst \<noteq> Inr 0" and "is_compatible_with found latest"
  shows "test_compatibility_inner latest found table =
           ([''versions are compatible... you're fine!''], Inl SystemExit)"
proof -
  obtain i where i: "bisect table found fst = Inr i"
    using bisect_total by blast
  moreover have "i \<noteq> 0" using i assms(1) by auto
  ultimately show ?thesis using assms(2) by (rule inner_compatible)
qed

theorem compatible_with_latest_witness:
  "bisect all_supported_versions \<lparr>major = 0, minor = 43, patch = 5\<rparr> fst
     = Inr (length all_supported_versions)
   \<and> bisect all_supported_versions \<lparr>major = 0, minor = 43, patch = 5\<rparr> fst \<noteq> Inr 0
   \<and> is_compatible_with \<lparr>major = 0, minor = 43, patch = 5\<rparr> \<lparr>major = 0, minor = 43, patch = 0\<rparr>
   \<and> test_compatibility_inner \<lparr>major = 0, minor = 43, patch = 0\<rparr>
         \<lparr>major = 0, minor = 43, patch = 5\<rparr> all_supported_versions =
       ([''versions are compatible... you're fine!''], Inl SystemExit)"
proof -
  have h1: "bisect all_supported_versions \<lparr>major = 0, minor = 43, patch = 5\<rparr> fst \<noteq> Inr 0"
    by (simp add: static_bisect)
  have h2: "is_compatible_with \<lparr>major = 0, minor = 43, patch = 5\<rparr>
              \<lparr>major = 0, minor = 43, patch = 0\<rparr>"
    by (simp add: is_compatible_with_def)
  have h3: "length all_supported_versions = 2"
    by (simp add: all_supported_versions_def)
  show ?thesis
    using compatible_with_latest [OF h1 h2] h1 h2 h3 by (simp add: static_bisect)
qed

text \<open>
  Claim C3. An installed version below the first entry of an increasing table has
  insertion position 0, and at position 0 the outcome is the error without a fallback. An
  installed version whose insertion position is the length of the table, and which is not
  release-compatible with the latest supported version, gets the error without a fallback
  as well.
\<close>

theorem incompatible_without_fallback:
  "(table \<noteq> [] \<and> sorted_wrt (\<lambda>p q. SemVer_lt (fst p) (fst q)) table
      \<and> SemVer_lt found (fst (hd table))
    \<longrightarrow> bisect table found fst = Inr 0)
   \<and> (bisect table found fst = Inr 0
    \<longrightarrow> test_compatibility_inner latest found table =
          ([], Inl (RuntimeError [ERROR_HEADER latest found,
                 if SemVer_gt found latest then ERROR_NEWER else ERROR_OLDER,
                 ERROR_EPILOGUE])))
   \<and> (bisect table newer fst = Inr (length table) \<and> \<not> is_compatible_with newer latest
    \<longrightarrow> test_compatibility_inner latest newer table =
          ([], Inl (RuntimeError [ERROR_HEADER latest newer,
                 if SemVer_gt newer latest then ERROR_NEWER else ERROR_OLDER,
                 ERROR_EPILOGUE])))"
proof (intro conjI impI)
  assume "table \<noteq> [] \<and> sorted_wrt (\<lambda>p q. SemVer_lt (fst p) (fst q)) table
      \<and> SemVer_lt found (fst (hd table))"
  then show "bisect table found fst = Inr 0"
    using bisect_below_first [of table fst found] by simp
next
  assume b: "bisect table found fst = Inr 0"
  show "test_compatibility_inner latest found table =
          ([], Inl (RuntimeError [ERROR_HEADER latest found,
                 if SemVer_gt found latest then ERROR_NEWER else ERROR_OLDER,
                 ERROR_EPILOGUE]))"
    using inner_index_0 [OF b] by (simp only: raise_error_None)
next
  assume "bisect table newer fst = Inr (length table) \<and> \<not> is_compatible_with newer latest"
  then show "test_compatibility_inner latest newer table =
          ([], Inl (RuntimeError [ERROR_HEADER latest newer,
                 if SemVer_gt newer latest then ERROR_NEWER else ERROR_OLDER,
                 ERROR_EPILOGUE]))"
    using inner_index_len [of table newer latest] by (simp add: raise_error_None)
qed

theorem incompatible_without_fallback_witness:
  "all_supported_versions \<noteq> []
   \<and> sorted_wrt (\<lambda>p q. SemVer_lt (fst p) (fst q)) all_supported_versions
   \<and> SemVer_lt \<lparr>major = 0, minor = 10, patch = 0\<rparr> (fst (hd all_supported_versions))
   \<and> bisect all_supported_versions \<lparr>major = 0, minor = 10, patch = 0\<rparr> fst = Inr 0
   \<and> test_compatibility_inner \<lparr>major = 0, minor = 43, patch = 0\<rparr>
        \<lparr>major = 0, minor = 10, patch = 0\<rparr> all_supported_versions =
      ([], Inl (RuntimeError
             [ERROR_HEADER \<lparr>major = 0, minor = 43, patch = 0\<rparr> \<lparr>major = 0, minor = 10, patch = 0\<rparr>,
              ERROR_OLDER, ERROR_EPILOGUE]))
   \<and> bisect all_supported_versions \<lparr>major = 0, minor = 44, patch = 0\<rparr> fst
        = Inr (length all_supported_versions)
   \<and> \<not> is_compatible_with \<lparr>major = 0, minor = 44, patch = 0\<rparr> \<lparr>major = 0, minor = 43, patch = 0\<rparr>
   \<and> test_compatibility_inner \<lparr>major = 0, minor = 43, patch = 0\<rparr>
        \<lparr>major = 0, minor = 44, patch = 0\<rparr> all_supported_versions =
      ([], Inl (RuntimeError
             [ERROR_HEADER \<lparr>major = 0, minor = 43, patch = 0\<rparr> \<lparr>major = 0, minor = 44, patch = 0\<rparr>,
              ERROR_NEWER, ERROR_EPILOGUE]))"
proof -
  have h1: "all_supported_versions \<noteq> []
      \<and> sorted_wrt (\<lambda>p q. SemVer_lt (fst p) (fst q)) all_supported_versions
      \<and> SemVer_lt \<lparr>major = 0, minor = 10, patch = 0\<rparr> (fst (hd all_supported_versions))"
    by (simp add: all_supported_versions_def SemVer_lt_def astuple_def)
  have h2: "bisect all_supported_versions \<lparr>major = 0, minor = 44, patch = 0\<rparr> fst
        = Inr (length all_supported_versions)
      \<and> \<not> is_compatible_with \<lparr>major = 0, minor = 44, patch = 0\<rparr>
            \<lparr>major = 0, minor = 43, patch = 0\<rparr>"
    by (simp add: static_bisect is_compatible_with_def) (simp add: all_supported_versions_def)
  have g: "SemVer_gt \<lparr>major = 0, minor = 44, patch = 0\<rparr> \<lparr>major = 0, minor = 43, patch = 0\<rparr>"
    "\<not> SemVer_gt \<lparr>major = 0, minor = 10, patch = 0\<rparr> \<lparr>major = 0, minor = 43, patch = 0\<rparr>"
    by (simp_all add: SemVer_gt_def astuple_def)
  show ?thesis
    using incompatible_without_fallback [of all_supported_versions
        "\<lparr>major = 0, minor = 10, patch = 0\<rparr>" "\<lparr>major = 0, minor = 43, patch = 0\<rparr>"
        "\<lparr>major = 0, minor = 44, patch = 0\<rparr>"] h1 h2 g
    by simp
qed

text \<open>
  Claim C1. The insertion position follows the upper-bound rule: in a table whose fzf
  versions increase, an installed version equal to the version of entry \<open>k\<close> has position
  \<open>k + 1\<close>. Strictly inside the table, and without compatibility with the latest version,
  entry \<open>i - 1\<close> is tested first and its library version is the fallback when it is
  compatible; entry \<open>i\<close> gives the fallback only when entry \<open>i - 1\<close> is not compatible. For
  the table of the module and the installed version 0.42.0 the position is 1 and the error
  carries the library version 0.1.0 of the older entry.
\<close>

theorem upper_bound_and_older_fallback:
  "(sorted_wrt (\<lambda>p q. SemVer_lt (fst p) (fst q)) table \<and> k < length table
    \<longrightarrow> bisect table (fst (table ! k)) fst = Inr (Suc k))
   \<and> (bisect tab found fst = Inr i \<and> 0 < i \<and> i < length tab
      \<and> \<not> is_compatible_with found latest
      \<and> is_compatible_with found (fst (tab ! (i - 1)))
    \<longrightarrow> test_compatibility_inner latest found tab =
          ([], Inl (RuntimeError [ERROR_HEADER latest found,
                 if SemVer_gt found latest then ERROR_NEWER else ERROR_OLDER,
                 ERROR_PREVIOUSLY_SUPPORTED (snd (tab ! (i - 1))), ERROR_EPILOGUE])))
   \<and> (bisect tab' found' fst = Inr j \<and> 0 < j \<and> j < length tab'
      \<and> \<not> is_compatible_with found' latest'
      \<and> \<not> is_compatible_with found' (fst (tab' ! (j - 1)))
      \<and> is_compatible_with found' (fst (tab' ! j))
    \<longrightarrow> test_compatibility_inner latest' found' tab' =
          ([], Inl (RuntimeError [ERROR_HEADER latest' found',
                 if SemVer_gt found' latest' then ERROR_NEWER else ERROR_OLDER,
                 ERROR_PREVIOUSLY_SUPPORTED (snd (tab' ! j)), ERROR_EPILOGUE])))
   \<and> bisect all_supported_versions \<lparr>major = 0, minor = 42, patch = 0\<rparr> fst = Inr 1
   \<and> test_compatibility_inner \<lparr>major = 0, minor = 43, patch = 0\<rparr>
        \<lparr>major = 0, minor = 42, patch = 0\<rparr> all_supported_versions =
      ([], Inl (RuntimeError
             [ERROR_HEADER \<lparr>major = 0, minor = 43, patch = 0\<rparr> \<lparr>major = 0, minor = 42, patch = 0\<rparr>,
              ERROR_OLDER,
              ERROR_PREVIOUSLY_SUPPORTED \<lparr>major = 0, minor = 1, patch = 0\<rparr>,
              ERROR_EPILOGUE]))"
proof (intro conjI impI)
  assume "sorted_wrt (\<lambda>p q. SemVer_lt (fst p) (fst q)) table \<and> k < length table"
  then show "bisect table (fst (table ! k)) fst = Inr (Suc k)"
    using bisect_equal_entry [of fst table k "fst (table ! k)"] by simp
next
  assume a: "bisect tab found fst = Inr i \<and> 0 < i \<and> i < length tab
      \<and> \<not> is_compatible_with found latest
      \<and> is_compatible_with found (fst (tab ! (i - 1)))"
  then show "test_compatibility_inner latest found tab =
          ([], Inl (RuntimeError [ERROR_HEADER latest found,
                 if SemVer_gt found latest then ERROR_NEWER else ERROR_OLDER,
                 ERROR_PREVIOUSLY_SUPPORTED (snd (tab ! (i - 1))), ERROR_EPILOGUE]))"
    using inner_middle [of tab found i latest] by (simp add: raise_error_Some)
next
  assume a: "bisect tab' found' fst = Inr j \<and> 0 < j \<and> j < length tab'
      \<and> \<not> is_compatible_with found' latest'
      \<and> \<not> is_compatible_with found' (fst (tab' ! (j - 1)))
      \<and> is_compatible_with found' (fst (tab' ! j))"
  then show "test_compatibility_inner latest' found' tab' =
          ([], Inl (RuntimeError [ERROR_HEADER latest' found',
                 if SemVer_gt found' latest' then ERROR_NEWER else ERROR_OLDER,
                 ERROR_PREVIOUSLY_SUPPORTED (snd (tab' ! j)), ERROR_EPILOGUE]))"
    using inner_middle [of tab' found' j latest'] by (simp add: raise_error_Some)
next
  show "bisect all_supported_versions \<lparr>major = 0, minor = 42, patch = 0\<rparr> fst = Inr 1"
    by (rule static_bisect(2))
next
  have "test_compatibility_inner \<lparr>major = 0, minor = 43, patch = 0\<rparr>
        \<lparr>major = 0, minor = 42, patch = 0\<rparr> all_supported_versions =
      ([], raise_error \<lparr>major = 0, minor = 43, patch = 0\<rparr> \<lparr>major = 0, minor = 42, patch = 0\<rparr>
             (Some \<lparr>major = 0, minor = 1, patch = 0\<rparr>))"
    using inner_middle [OF static_bisect(2), of "\<lparr>major = 0, minor = 43, patch = 0\<rparr>"]
    by (simp add: all_supported_versions_def is_compatible_with_def)
  then show "test_compatibility_inner \<lparr>major = 0, minor = 43, patch = 0\<rparr>
        \<lparr>major = 0, minor = 42, patch = 0\<rparr> all_supported_versions =
      ([], Inl (RuntimeError
             [ERROR_HEADER \<lparr>major = 0, minor = 43, patch = 0\<rparr> \<lparr>major = 0, minor = 42, patch = 0\<rparr>,
              ERROR_OLDER,
              ERROR_PREVIOUSLY_SUPPORTED \<lparr>major = 0, minor = 1, patch = 0\<rparr>,
              ERROR_EPILOGUE]))"
    by (simp add: raise_error_Some SemVer_gt_def astuple_def)
qed

theorem upper_bound_and_older_fallback_witness:
  "sorted_wrt (\<lambda>p q. SemVer_lt (fst p) (fst q)) all_supported_versions
   \<and> 0 < length all_supported_versions
   \<and> bisect all_supported_versions (fst (all_supported_versions ! 0)) fst = Inr (Suc 0)
   \<and> bisect all_supported_versions \<lparr>major = 0, minor = 42, patch = 0\<rparr> fst = Inr 1
   \<and> 1 < length all_supported_versions
   \<and> \<not> is_compatible_with \<lparr>major = 0, minor = 42, patch = 0\<rparr> \<lparr>major = 0, minor = 43, patch = 0\<rparr>
   \<and> is_compatible_with \<lparr>major = 0, minor = 42, patch = 0\<rparr> (fst (all_supported_versions ! (1 - 1)))
   \<and> test_compatibility_inner \<lparr>major = 0, minor = 43, patch = 0\<rparr>
        \<lparr>major = 0, minor = 42, patch = 0\<rparr> all_supported_versions =
      ([], Inl (RuntimeError
             [ERROR_HEADER \<lparr>major = 0, minor = 43, patch = 0\<rparr> \<lparr>major = 0, minor = 42, patch = 0\<rparr>,
              ERROR_OLDER,
              ERROR_PREVIOUSLY_SUPPORTED (snd (all_supported_versions ! (1 - 1))),
              ERROR_EPILOGUE]))
   \<and> bisect [(\<lparr>major = 0, minor = 42, patch = 0\<rparr>, \<lparr>major = 0, minor = 1, patch = 0\<rparr>),
              (\<lparr>major = 0, minor = 43, patch = 5\<rparr>, \<lparr>major = 0, minor = 2, patch = 0\<rparr>),
              (\<lparr>major = 0, minor = 44, patch = 0\<rparr>, \<lparr>major = 0, minor = 3, patch = 0\<rparr>)]
        \<lparr>major = 0, minor = 43, patch = 0\<rparr> fst = Inr 1
   \<and> test_compatibility_inner \<lparr>major = 0, minor = 44, patch = 0\<rparr>
        \<lparr>major = 0, minor = 43, patch = 0\<rparr>
        [(\<lparr>major = 0, minor = 42, patch = 0\<rparr>, \<lparr>major = 0, minor = 1, patch = 0\<rparr>),
         (\<lparr>major = 0, minor = 43, patch = 5\<rparr>, \<lparr>major = 0, minor = 2, patch = 0\<rparr>),
         (\<lparr>major = 0, minor = 44, patch = 0\<rparr>, \<lparr>major = 0, minor = 3, patch = 0\<rparr>)] =
      ([], Inl (RuntimeError
             [ERROR_HEADER \<lparr>major = 0, minor = 44, patch = 0\<rparr> \<lparr>major = 0, minor = 43, patch = 0\<rparr>,
              ERROR_OLDER,
              ERROR_PREVIOUSLY_SUPPORTED \<lparr>major = 0, minor = 2, patch = 0\<rparr>,
              ERROR_EPILOGUE]))"
proof -
  let ?t3 = "[(\<lparr>major = 0, minor = 42, patch = 0\<rparr>, \<lparr>major = 0, minor = 1, patch = 0\<rparr>),
              (\<lparr>major = 0, minor = 43, patch = 5\<rparr>, \<lparr>major = 0, minor = 2, patch = 0\<rparr>),
              (\<lparr>major = 0, minor = 44, patch = 0\<rparr>, \<lparr>major = 0, minor = 3, patch = 0\<rparr>)]"
  have len: "0 < length all_supported_versions" "1 < length all_supported_versions"
    by (simp_all add: all_supported_versions_def)
  have c: "\<not> is_compatible_with \<lparr>major = 0, minor = 42, patch = 0\<rparr>
              \<lparr>major = 0, minor = 43, patch = 0\<rparr>"
    "is_compatible_with \<lparr>major = 0, minor = 42, patch = 0\<rparr>
       (fst (all_supported_versions ! (1 - 1)))"
    by (simp_all add: is_compatible_with_def all_supported_versions_def)
  have b3: "bisect ?t3 \<lparr>major = 0, minor = 43, patch = 0\<rparr> fst = Inr 1"
    by (simp add: bisect_def bisect_right.simps SemVer_lt_def astuple_def)
  have c3: "\<not> is_compatible_with \<lparr>major = 0, minor = 43, patch = 0\<rparr>
              \<lparr>major = 0, minor = 44, patch = 0\<rparr>"
    "\<not> is_compatible_with \<lparr>major = 0, minor = 43, patch = 0\<rparr> (fst (?t3 ! (1 - 1)))"
    "is_compatible_with \<lparr>major = 0, minor = 43, patch = 0\<rparr> (fst (?t3 ! 1))"
    by (simp_all add: is_compatible_with_def)
  have g: "\<not> SemVer_gt \<lparr>major = 0, minor = 42, patch = 0\<rparr> \<lparr>major = 0, minor = 43, patch = 0\<rparr>"
    "\<not> SemVer_gt \<lparr>major = 0, minor = 43, patch = 0\<rparr> \<lparr>major = 0, minor = 44, patch = 0\<rparr>"
    by (simp_all add: SemVer_gt_def astuple_def)
  have one: "(1::nat) - 1 = 0" "0 < (1::nat)" by simp_all
  note inst = upper_bound_and_older_fallback [of all_supported_versions 0
        all_supported_versions "\<lparr>major = 0, minor = 42, patch = 0\<rparr>" 1
        "\<lparr>major = 0, minor = 43, patch = 0\<rparr>"
        ?t3 "\<lparr>major = 0, minor = 43, patch = 0\<rparr>" 1
        "\<lparr>major = 0, minor = 44, patch = 0\<rparr>"]
  have len3: "1 < length ?t3" by simp
  have r1: "bisect all_supported_versions (fst (all_supported_versions ! 0)) fst = Inr (Suc 0)"
    using inst static_sorted len(1) by blast
  have r2: "test_compatibility_inner \<lparr>major = 0, minor = 43, patch = 0\<rparr>
        \<lparr>major = 0, minor = 42, patch = 0\<rparr> all_supported_versions =
      ([], Inl (RuntimeError
             [ERROR_HEADER \<lparr>major = 0, minor = 43, patch = 0\<rparr> \<lparr>major = 0, minor = 42, patch = 0\<rparr>,
              if SemVer_gt \<lparr>major = 0, minor = 42, patch = 0\<rparr> \<lparr>major = 0, minor = 43, patch = 0\<rparr>
              then ERROR_NEWER else ERROR_OLDER,
              ERROR_PREVIOUSLY_SUPPORTED (snd (all_supported_versions ! (1 - 1))),
              ERROR_EPILOGUE]))"
    using inst static_bisect(2) one(2) len(2) c by blast
  have r3: "test_compatibility_inner \<lparr>major = 0, minor = 44, patch = 0\<rparr>
        \<lparr>major = 0, minor = 43, patch = 0\<rparr> ?t3 =
      ([], Inl (RuntimeError
             [ERROR_HEADER \<lparr>major = 0, minor = 44, patch = 0\<rparr> \<lparr>major = 0, minor = 43, patch = 0\<rparr>,
              if SemVer_gt \<lparr>major = 0, minor = 43, patch = 0\<rparr> \<lparr>major = 0, minor = 44, patch = 0\<rparr>
              then ERROR_NEWER else ERROR_OLDER,
              ERROR_PREVIOUSLY_SUPPORTED (snd (?t3 ! 1)), ERROR_EPILOGUE]))"
    using inst b3 one(2) len3 c3 by blast
  have r3': "test_compatibility_inner \<lparr>major = 0, minor = 44, patch = 0\<rparr>
        \<lparr>major = 0, minor = 43, patch = 0\<rparr> ?t3 =
      ([], Inl (RuntimeError
             [ERROR_HEADER \<lparr>major = 0, minor = 44, patch = 0\<rparr> \<lparr>major = 0, minor = 43, patch = 0\<rparr>,
              ERROR_OLDER,
              ERROR_PREVIOUSLY_SUPPORTED \<lparr>major = 0, minor = 2, patch = 0\<rparr>, ERROR_EPILOGUE]))"
    using r3 g(2) by simp
  have r2': "test_compatibility_inner \<lparr>major = 0, minor = 43, patch = 0\<rparr>
        \<lparr>major = 0, minor = 42, patch = 0\<rparr> all_supported_versions =
      ([], Inl (RuntimeError
             [ERROR_HEADER \<lparr>major = 0, minor = 43, patch = 0\<rparr> \<lparr>major = 0, minor = 42, patch = 0\<rparr>,
              ERROR_OLDER,
              ERROR_PREVIOUSLY_SUPPORTED (snd (all_supported_versions ! (1 - 1))),
              ERROR_EPILOGUE]))"
    using r2 g(1) by (simp only: if_False)
  show ?thesis
    using static_sorted len static_bisect(2) c r1 r2' b3 r3' by blast
qed



text \<open>
  Claim C9. On a non-empty table whose fzf versions increase, with the latest supported
  version being the one of the last entry, a \<^verbatim>\<open>RuntimeError\<close> is raised only for an
  installed version different from the latest one. The installed version is then either
  greater or less, and the message has the newer clause exactly when it is greater and
  the older clause exactly when it is less.
\<close>

theorem incompatible_differs_from_latest:
  assumes "table \<noteq> []"
    and "sorted_wrt (\<lambda>p q. SemVer_lt (fst p) (fst q)) table"
    and "latest = fst (last table)"
    and "test_compatibility_inner latest found table = (out, Inl (RuntimeError parts))"
  shows "found \<noteq> latest
    \<and> (SemVer_gt found latest \<or> SemVer_lt found latest)
    \<and> (ERROR_NEWER \<in> set parts \<longleftrightarrow> SemVer_gt found latest)
    \<and> (ERROR_OLDER \<in> set parts \<longleftrightarrow> SemVer_lt found latest)"
proof -
  have ne: "found \<noteq> latest"
  proof
    assume eq: "found = latest"
    have "bisect table found fst = Inr (length table)"
      using bisect_last_entry [OF assms(1,2)] assms(3) eq by simp
    moreover have "length table \<noteq> 0" using assms(1) by simp
    moreover have "is_compatible_with found latest"
      using eq by (simp add: is_compatible_with_def)
    ultimately have "test_compatibility_inner latest found table =
        ([''versions are compatible... you're fine!''], Inl SystemExit)"
      by (rule inner_compatible)
    then show False using assms(4) by simp
  qed
  have tri: "SemVer_gt found latest \<or> SemVer_lt found latest"
    using ne by (rule SemVer_trichotomy)
  obtain prev where "raise_error latest found prev = Inl (RuntimeError parts)"
    using inner_cases [of latest found table] assms(4) by auto
  then have p: "(ERROR_NEWER \<in> set parts \<longleftrightarrow> SemVer_gt found latest)"
    "(ERROR_OLDER \<in> set parts \<longleftrightarrow> \<not> SemVer_gt found latest)"
    using raise_error_parts by blast+
  show ?thesis using ne tri p SemVer_gt_not_lt [of found latest] by blast
qed

theorem incompatible_differs_from_latest_witness:
  "all_supported_versions \<noteq> []
   \<and> sorted_wrt (\<lambda>p q. SemVer_lt (fst p) (fst q)) all_supported_versions
   \<and> \<lparr>major = 0, minor = 43, patch = 0\<rparr> = fst (last all_supported_versions)
   \<and> test_compatibility_inner \<lparr>major = 0, minor = 43, patch = 0\<rparr>
        \<lparr>major = 0, minor = 44, patch = 0\<rparr> all_supported_versions =
      ([], Inl (RuntimeError
             [ERROR_HEADER \<lparr>major = 0, minor = 43, patch = 0\<rparr> \<lparr>major = 0, minor = 44, patch = 0\<rparr>,
              ERROR_NEWER, ERROR_EPILOGUE]))
   \<and> \<lparr>major = 0, minor = 44, patch = 0\<rparr> \<noteq> \<lparr>major = 0, minor = 43, patch = (0::int)\<rparr>
   \<and> SemVer_gt \<lparr>major = 0, minor = 44, patch = 0\<rparr> \<lparr>major = 0, minor = 43, patch = 0\<rparr>
   \<and> \<not> SemVer_lt \<lparr>major = 0, minor = 44, patch = 0\<rparr> \<lparr>major = 0, minor = 43, patch = 0\<rparr>"
proof -
  have h1: "all_supported_versions \<noteq> []"
    by (simp add: all_supported_versions_def)
  have h3: "\<lparr>major = 0, minor = 43, patch = 0\<rparr> = fst (last all_supported_versions)"
    by (simp add: all_supported_versions_def)
  have nc: "\<not> is_compatible_with \<lparr>major = 0, minor = 44, patch = 0\<rparr>
              \<lparr>major = 0, minor = 43, patch = 0\<rparr>"
    by (simp add: is_compatible_with_def)
  have len: "Inr 2 = (Inr (length all_supported_versions) :: exn + nat)"
    by (simp add: all_supported_versions_def)
  have g: "SemVer_gt \<lparr>major = 0, minor = 44, patch = 0\<rparr> \<lparr>major = 0, minor = 43, patch = 0\<rparr>"
    by (simp add: SemVer_gt_def astuple_def)
  have h4: "test_compatibility_inner \<lparr>major = 0, minor = 43, patch = 0\<rparr>
        \<lparr>major = 0, minor = 44, patch = 0\<rparr> all_supported_versions =
      ([], Inl (RuntimeError
             [ERROR_HEADER \<lparr>major = 0, minor = 43, patch = 0\<rparr> \<lparr>major = 0, minor = 44, patch = 0\<rparr>,
              ERROR_NEWER, ERROR_EPILOGUE]))"
    using inner_index_len [OF static_bisect(4) [unfolded len] nc] g
    by (simp add: raise_error_None)
  show ?thesis
    using incompatible_differs_from_latest [OF h1 static_sorted h3 h4] h1 static_sorted h3 h4
    by simp
qed

section \<open>Parsing\<close>



text \<open>
  Claim C10. A text whose first character is not a digit is not parsed: \<open>from_str\<close> raises
  the \<^verbatim>\<open>ValueError\<close>, whatever follows the first character, a well-formed version
  included.
\<close>

theorem first_character_must_be_digit:
  assumes "\<not> is_digit ch"
  shows "from_str (ch # rest) = Inl (ValueError (''can't parse given semver: '' @ ch # rest) [])"
  by (rule from_str_no_leading_digit) (simp add: assms)

theorem first_character_must_be_digit_witness:
  "\<not> is_digit CHR ''v''
   \<and> from_str ''1.2.3'' = Inr \<lparr>major = 1, minor = 2, patch = 3\<rparr>
   \<and> from_str ''v1.2.3'' = Inl (ValueError ''can't parse given semver: v1.2.3'' [])
   \<and> \<not> is_digit CHR '' ''
   \<and> from_str '' 1.2.3'' = Inl (ValueError ''can't parse given semver:  1.2.3'' [])"
proof -
  have h: "\<not> is_digit CHR ''v''" "\<not> is_digit CHR '' ''"
    by (simp_all add: is_digit_def)
  have t: "py_str 1 = ''1''" "py_str 2 = ''2''" "py_str 3 = ''3''"
    by (simp_all add: py_str.simps digit_chr_def)
  have ok: "from_str ''1.2.3'' = Inr \<lparr>major = 1, minor = 2, patch = 3\<rparr>"
    using from_str_decimal [of "[]" 1 2 3, unfolded t] by simp
  show ?thesis
    using first_character_must_be_digit [OF h(1), of "''1.2.3''"]
      first_character_must_be_digit [OF h(2), of "''1.2.3''"] h ok
    by simp
qed

text \<open>
  Claim C5. The second separator of the pattern is an unescaped dot, which stands for any
  character: \<^verbatim>\<open>1.2x3\<close> is parsed as 1.2.3, and in \<^verbatim>\<open>1.234\<close> the matcher gives back two
  digits of the second run, takes \<^verbatim>\<open>3\<close> as the separator and parses 1.2.4. Neither text
  has three runs of digits separated by dots.
\<close>

theorem second_separator_any_character:
  "from_str ''1.2x3'' = Inr \<lparr>major = 1, minor = 2, patch = 3\<rparr>
   \<and> from_str ''1.234'' = Inr \<lparr>major = 1, minor = 2, patch = 4\<rparr>"
  by (simp add: from_str_def re_search_def RE_SEMVER_def and_then_def group_def py_int_def
        is_digit_def digit_val_def)




end
